theory Spec2Isabelle
  imports Main
begin

section \<open>Python strings\<close>

text \<open>
  A Python \<open>str\<close> is modelled as a \<^typ>\<open>string\<close>: each \<^typ>\<open>char\<close> stands for one code
  point below 256. The character classes below are those of CPython for that range:
  \<open>str.strip()\<close> and the regular-expression class \<open>\s\<close> both use \<open>Py_UNICODE_ISSPACE\<close>,
  and \<open>\d\<close> on a \<open>str\<close> pattern is the Unicode decimal digits, of which only
  \<open>0\<close> to \<open>9\<close> lie below 256.
\<close>

definition isspace :: "char \<Rightarrow> bool" where
  "isspace c \<longleftrightarrow>
     c \<in> set [CHR 0x09, CHR 0x0A, CHR 0x0B, CHR 0x0C, CHR 0x0D,
               CHR 0x1C, CHR 0x1D, CHR 0x1E, CHR 0x1F, CHR 0x20, CHR 0x85, CHR 0xA0]"

definition isdigit :: "char \<Rightarrow> bool" where
  "isdigit c \<longleftrightarrow> c \<in> set ''0123456789''"

text \<open>\<open>s.strip()\<close>: leading and trailing whitespace removed.\<close>

definition strip :: "string \<Rightarrow> string" where
  "strip s = rev (dropWhile isspace (rev (dropWhile isspace s)))"

text \<open>
  \<open>s.split(sep)\<close> for a separator of one character: the fields between the occurrences
  of \<open>sep\<close>, empty fields kept, so the result of splitting the empty string is \<open>['']\<close>.
  \<open>split_from\<close> scans the string once; \<open>cur\<close> is the field read so far.
\<close>

fun split_from :: "char \<Rightarrow> string \<Rightarrow> string \<Rightarrow> string list" where
  "split_from sep cur [] = [cur]"
| "split_from sep cur (c # cs) =
     (if c = sep then cur # split_from sep [] cs else split_from sep (cur @ [c]) cs)"

definition split :: "char \<Rightarrow> string \<Rightarrow> string list" where
  "split sep s = split_from sep [] s"

text \<open>\<open>str(n)\<close> for an \<open>int\<close>, as the f-string \<open>f"-n{n}"\<close> formats it.\<close>

definition digit_char :: "nat \<Rightarrow> char" where
  "digit_char d = ''0123456789'' ! (d mod 10)"

function str_nat :: "nat \<Rightarrow> string" where
  "str_nat n = (if n < 10 then [digit_char n] else str_nat (n div 10) @ [digit_char (n mod 10)])"
  by pat_completeness auto
termination
  by (relation "measure id") auto

definition str_int :: "int \<Rightarrow> string" where
  "str_int n = (if n < 0 then CHR ''-'' # str_nat (nat (- n)) else str_nat (nat n))"

section \<open>The outside world\<close>

text \<open>
  The program talks to the outside through \<open>subprocess.run\<close>, \<open>print\<close> and
  \<open>openai.ChatCompletion.create\<close>. Every such call is appended to a trace of events,
  which is the state threaded through the program. What a call answers is given by a
  \<open>world\<close>, and may depend on everything that happened before (the trace so far).

  \<open>subprocess.run(..., capture_output=True, text=True, check=True)\<close> either returns a
  completed process, of which the program reads \<open>stdout\<close>, or raises
  \<open>CalledProcessError\<close>, of which it reads \<open>stderr\<close>. The version-control tool is
  taken to be present and to emit decodable text, so these are the two outcomes.
  The service call either returns a response or raises an \<open>Exception\<close>, of which the
  program reads the text \<open>str(e)\<close>.
\<close>

datatype CompletedProcess = CompletedProcess (stdout: string)

datatype CalledProcessError = CalledProcessError (stderr: string)

record chat_request =
  model :: string
  messages :: "(string \<times> string) list"  \<comment> \<open>role and content of each message\<close>
  temperature :: "nat \<times> nat"               \<comment> \<open>the decimal literal, as a fraction\<close>

datatype chat_response = ChatResponse (generated_text: string)

datatype service_exception = ServiceException (exception_text: string)

datatype event =
    SubprocessRun "string list"
  | Print string
  | ChatCompletionCreate (request: chat_request)

record world =
  subprocess_run :: "event list \<Rightarrow> string list \<Rightarrow> CalledProcessError + CompletedProcess"
  chat_completion_create :: "event list \<Rightarrow> chat_request \<Rightarrow> service_exception + chat_response"

definition run :: "world \<Rightarrow> string list \<Rightarrow> event list \<Rightarrow>
    (CalledProcessError + CompletedProcess) \<times> event list" where
  "run w args tr = (subprocess_run w tr args, tr @ [SubprocessRun args])"

definition print :: "string \<Rightarrow> event list \<Rightarrow> event list" where
  "print s tr = tr @ [Print s]"

section \<open>Dictionaries\<close>

text \<open>
  A commit is a \<open>dict\<close> from keys to values; a value is a \<open>str\<close> or, under
  \<open>diff_stats\<close>, a list of file-change entries. An entry is the three-key literal
  built by \<open>get_commit_details\<close>.
\<close>

record file_change =
  file_path :: string    \<comment> \<open>the key \<open>file\<close>\<close>
  additions :: string
  deletions :: string

datatype pyval = Str string | Stats "file_change list"

type_synonym pydict = "string \<rightharpoonup> pyval"

section \<open>History Reader: \<open>get_recent_commits\<close>\<close>

definition format_str :: string where
  "format_str = ''--pretty=format:%H|%an|%ad|%s''"

text \<open>The loop over the lines of the log output; \<open>commits\<close> is the list built so far.\<close>

fun log_lines :: "string list \<Rightarrow> pydict list \<Rightarrow> pydict list" where
  "log_lines [] commits = commits"
| "log_lines (line # rest) commits =
     (if line = [] then log_lines rest commits
      else (let parts = split CHR ''|'' line in
            if length parts = 4 then
              log_lines rest (commits @
                [ [''hash'' \<mapsto> Str (parts ! 0), ''author'' \<mapsto> Str (parts ! 1),
                   ''date'' \<mapsto> Str (parts ! 2), ''message'' \<mapsto> Str (parts ! 3)] ])
            else log_lines rest commits))"

definition get_recent_commits :: "world \<Rightarrow> int \<Rightarrow> event list \<Rightarrow> pydict list \<times> event list" where
  "get_recent_commits w n tr =
     (case run w [''git'', ''log'', ''-n'' @ str_int n, format_str] tr of
        (Inr result, tr1) \<Rightarrow> (log_lines (split CHR 0x0A (strip (stdout result))) [], tr1)
      | (Inl e, tr1) \<Rightarrow> ([], print (''Error retrieving commits: '' @ strip (stderr e)) tr1))"

section \<open>Regular expressions\<close>

text \<open>
  The fragment of Python's \<open>re\<close> that the program uses: one character of a class, one
  or more characters of a class (greedy), alternation, concatenation and capturing groups.
  \<open>re_match\<close> is the backtracking matcher: \<open>k\<close> is what remains to be matched after the
  expression, called with the rest of the input and the groups captured so far. An
  alternation tries its left branch first; \<open>+\<close> tries the longest run first and gives
  characters back one at a time. Groups are not nested here, so they are captured in the
  order of their numbers.
\<close>

datatype regex =
    OneOf "char \<Rightarrow> bool"
  | Plus "char \<Rightarrow> bool"
  | Alt regex regex
  | Cat regex regex
  | Group regex

fun first_some :: "('a \<Rightarrow> 'b option) \<Rightarrow> 'a list \<Rightarrow> 'b option" where
  "first_some f [] = None"
| "first_some f (x # xs) = (case f x of Some r \<Rightarrow> Some r | None \<Rightarrow> first_some f xs)"

primrec re_match :: "regex \<Rightarrow> string \<Rightarrow> string list \<Rightarrow>
    (string \<Rightarrow> string list \<Rightarrow> 'a option) \<Rightarrow> 'a option" where
  "re_match (OneOf p) = (\<lambda>s gs k.
     case s of [] \<Rightarrow> None | c # cs \<Rightarrow> if p c then k cs gs else None)"
| "re_match (Plus p) = (\<lambda>s gs k.
     first_some (\<lambda>i. k (drop i s) gs) (rev [1..<Suc (length (takeWhile p s))]))"
| "re_match (Alt a b) = (\<lambda>s gs k.
     case re_match a s gs k of Some r \<Rightarrow> Some r | None \<Rightarrow> re_match b s gs k)"
| "re_match (Cat a b) = (\<lambda>s gs k. re_match a s gs (\<lambda>s' gs'. re_match b s' gs' k))"
| "re_match (Group a) = (\<lambda>s gs k.
     re_match a s gs (\<lambda>s' gs'. k s' (gs' @ [take (length s - length s') s])))"

text \<open>\<open>pattern.match(line)\<close>: anchored at the start of the line, not at its end.\<close>

definition pattern_match :: "regex \<Rightarrow> string \<Rightarrow> string list option" where
  "pattern_match r line = re_match r line [] (\<lambda>rest gs. Some gs)"

text \<open>\<open>match.group(i)\<close> for \<open>i\<close> from 1.\<close>

definition group :: "string list \<Rightarrow> nat \<Rightarrow> string" where
  "group m i = m ! (i - 1)"

section \<open>Detail Fetcher: \<open>get_commit_details\<close>\<close>

text \<open>The pattern \<^verbatim>\<open>(\d+|-)\s+(\d+|-)\s+(.+)\<close>; the dot matches all but a newline.\<close>

definition count_or_dash :: regex where
  "count_or_dash = Alt (Plus isdigit) (OneOf (\<lambda>c. c = CHR ''-''))"

definition pattern :: regex where
  "pattern =
     Cat (Group count_or_dash)
    (Cat (Plus isspace)
    (Cat (Group count_or_dash)
    (Cat (Plus isspace)
         (Group (Plus (\<lambda>c. c \<noteq> CHR 0x0A))))))"

text \<open>The loop over the lines of the numstat output.\<close>

fun numstat_lines :: "string list \<Rightarrow> file_change list \<Rightarrow> file_change list" where
  "numstat_lines [] diff_stats = diff_stats"
| "numstat_lines (line # rest) diff_stats =
     (case pattern_match pattern line of
        Some m \<Rightarrow>
          numstat_lines rest (diff_stats @
            [\<lparr>file_path = group m 3, additions = group m 1, deletions = group m 2\<rparr>])
      | None \<Rightarrow> numstat_lines rest diff_stats)"

definition details_failed :: "string \<Rightarrow> CalledProcessError \<Rightarrow> event list \<Rightarrow> pydict \<times> event list" where
  "details_failed commit_hash e tr =
     (Map.empty,
      print (''Error retrieving commit details for '' @ commit_hash @ '': '' @ stderr e) tr)"

definition get_commit_details :: "world \<Rightarrow> string \<Rightarrow> event list \<Rightarrow> pydict \<times> event list" where
  "get_commit_details w commit_hash tr =
     (case run w [''git'', ''show'', ''--format=%B'', commit_hash] tr of
        (Inl e, tr1) \<Rightarrow> details_failed commit_hash e tr1
      | (Inr message, tr1) \<Rightarrow>
     (case run w [''git'', ''show'', ''--name-status'', commit_hash] tr1 of
        (Inl e, tr2) \<Rightarrow> details_failed commit_hash e tr2
      | (Inr changes, tr2) \<Rightarrow>
     (case run w [''git'', ''show'', ''--numstat'', commit_hash] tr2 of
        (Inl e, tr3) \<Rightarrow> details_failed commit_hash e tr3
      | (Inr num_stats, tr3) \<Rightarrow>
          ([''hash'' \<mapsto> Str commit_hash,
            ''full_message'' \<mapsto> Str (strip (stdout message)),
            ''changes'' \<mapsto> Str (strip (stdout changes)),
            ''diff_stats'' \<mapsto>
               Stats (numstat_lines (split CHR 0x0A (strip (stdout num_stats))) [])],
           tr3))))"

section \<open>Prompt Builder: \<open>prepare_prompt\<close>\<close>

text \<open>
  What an f-string writes for a value: a \<open>str\<close> as it is, a list by its \<open>repr\<close>.
  \<open>repr\<close> of a \<open>str\<close> quotes it (with double quotes if it holds a single quote and no
  double quote) and escapes the quote, the backslash and the characters that are not
  printable.
\<close>

definition hex_digit :: "nat \<Rightarrow> char" where
  "hex_digit d = ''0123456789abcdef'' ! (d mod 16)"

definition isprintable :: "char \<Rightarrow> bool" where
  "isprintable c \<longleftrightarrow>
     (let n = (of_char c :: nat) in \<not> (n < 32 \<or> (127 \<le> n \<and> n \<le> 160) \<or> n = 173))"

definition repr_char :: "char \<Rightarrow> char \<Rightarrow> string" where
  "repr_char quote c =
     (if c = quote \<or> c = CHR 0x5C then [CHR 0x5C, c]
      else if c = CHR 0x09 then [CHR 0x5C, CHR ''t'']
      else if c = CHR 0x0A then [CHR 0x5C, CHR ''n'']
      else if c = CHR 0x0D then [CHR 0x5C, CHR ''r'']
      else if \<not> isprintable c then
        [CHR 0x5C, CHR ''x'', hex_digit (of_char c div 16), hex_digit (of_char c mod 16)]
      else [c])"

definition repr_str :: "string \<Rightarrow> string" where
  "repr_str s =
     (let quote = (if CHR 0x27 \<in> set s \<and> CHR 0x22 \<notin> set s then CHR 0x22 else CHR 0x27)
      in quote # concat (map (repr_char quote) s) @ [quote])"

definition repr_stat :: "file_change \<Rightarrow> string" where
  "repr_stat stat =
     ''{'' @ repr_str ''file'' @ '': '' @ repr_str (file_path stat) @ '', '' @
     repr_str ''additions'' @ '': '' @ repr_str (additions stat) @ '', '' @
     repr_str ''deletions'' @ '': '' @ repr_str (deletions stat) @ ''}''"

fun join :: "string \<Rightarrow> string list \<Rightarrow> string" where
  "join sep [] = []"
| "join sep [x] = x"
| "join sep (x # y # ys) = x @ sep @ join sep (y # ys)"

fun py_str :: "pyval \<Rightarrow> string" where
  "py_str (Str s) = s"
| "py_str (Stats l) = ''['' @ join '', '' (map repr_stat l) @ '']''"

text \<open>\<open>v[:n]\<close>, on a \<open>str\<close> and on a list.\<close>

fun py_slice :: "nat \<Rightarrow> pyval \<Rightarrow> pyval" where
  "py_slice n (Str s) = Str (take n s)"
| "py_slice n (Stats l) = Stats (take n l)"

text \<open>Truth value of a value in a condition: empty strings and lists are false.\<close>

fun truthy :: "pyval \<Rightarrow> bool" where
  "truthy (Str s) = (s \<noteq> [])"
| "truthy (Stats l) = (l \<noteq> [])"

datatype py_error = KeyError string | TypeError

text \<open>The inner loop, over the file-change entries of one commit.\<close>

fun stat_loop :: "file_change list \<Rightarrow> string \<Rightarrow> string" where
  "stat_loop [] prompt = prompt"
| "stat_loop (stat # rest) prompt =
     stat_loop rest
       (prompt @ ''File: '' @ file_path stat @ '' (+'' @ additions stat @ '' / -'' @
        deletions stat @ '')\<newline>'')"

text \<open>
  \<open>for stat in commit["diff_stats"]\<close>: over a list the loop above; over a \<open>str\<close> that
  is not empty the first \<open>stat['file']\<close> indexes a \<open>str\<close> with a \<open>str\<close>, a \<open>TypeError\<close>.
\<close>

fun add_stats :: "pyval \<Rightarrow> string \<Rightarrow> py_error + string" where
  "add_stats (Stats l) prompt = Inr (stat_loop l prompt)"
| "add_stats (Str s) prompt = (if s = [] then Inr prompt else Inl TypeError)"

text \<open>The body of the outer loop: what one commit appends to the prompt.\<close>

definition add_commit :: "pydict \<Rightarrow> string \<Rightarrow> py_error + string" where
  "add_commit commit prompt =
     (case commit ''hash'' of None \<Rightarrow> Inl (KeyError ''hash'') | Some h \<Rightarrow>
      let prompt = prompt @ ''Commit Hash: '' @ py_str (py_slice 8 h) @ ''\<newline>'' in
     (case commit ''author'' of None \<Rightarrow> Inl (KeyError ''author'') | Some a \<Rightarrow>
      let prompt = prompt @ ''Author: '' @ py_str a @ ''\<newline>'' in
     (case commit ''date'' of None \<Rightarrow> Inl (KeyError ''date'') | Some d \<Rightarrow>
      let prompt = prompt @ ''Date: '' @ py_str d @ ''\<newline>'' in
     (case commit ''message'' of None \<Rightarrow> Inl (KeyError ''message'') | Some m \<Rightarrow>
      let prompt = prompt @ ''Message: '' @ py_str m @ ''\<newline>'';
          prompt = (case commit ''full_message'' of
                      Some fm \<Rightarrow>
                        if fm \<noteq> m then prompt @ ''Details: '' @ py_str fm @ ''\<newline>''
                        else prompt
                    | None \<Rightarrow> prompt) in
     (case (case commit ''diff_stats'' of
              Some ds \<Rightarrow> if truthy ds then add_stats ds prompt else Inr prompt
            | None \<Rightarrow> Inr prompt) of
        Inl e \<Rightarrow> Inl e
      | Inr prompt \<Rightarrow> Inr (prompt @ ''\<newline>''))))))"

fun commit_loop :: "pydict list \<Rightarrow> string \<Rightarrow> py_error + string" where
  "commit_loop [] prompt = Inr prompt"
| "commit_loop (commit # rest) prompt =
     (case add_commit commit prompt of
        Inl e \<Rightarrow> Inl e
      | Inr prompt' \<Rightarrow> commit_loop rest prompt')"

definition preamble :: string where
  "preamble =
     ''Based on the following git commit history, generate a user-friendly changelog '' @
     ''that summarizes the changes in a way that would be meaningful to the end user. '' @
     ''Git Commit History:\<newline>''"

definition closing :: string where
  "closing =
     ''Please generate a changelog with clear sections (e.g., Features, Improvements, Bug Fixes) '' @
     ''using markdown formatting. Provide a concise summary that focues on the changes that matter most to the end user.''"

definition prepare_prompt :: "pydict list \<Rightarrow> py_error + string" where
  "prepare_prompt commits =
     (case commit_loop commits preamble of
        Inl e \<Rightarrow> Inl e
      | Inr prompt \<Rightarrow> Inr (prompt @ closing))"

section \<open>Changelog Generator: \<open>generate_changelog\<close>\<close>

text \<open>
  The loop that fetches the details of each commit and merges them over its summary,
  \<open>{**commit, **details}\<close>. \<open>get_commit_details\<close> passes the hash on to
  \<open>subprocess.run\<close>, which raises \<open>TypeError\<close> for an argument that is a list.
\<close>

fun detail_loop :: "world \<Rightarrow> pydict list \<Rightarrow> pydict list \<Rightarrow> event list \<Rightarrow>
    (py_error + pydict list) \<times> event list" where
  "detail_loop w [] detailed_commits tr = (Inr detailed_commits, tr)"
| "detail_loop w (commit # rest) detailed_commits tr =
     (case commit ''hash'' of
        None \<Rightarrow> (Inl (KeyError ''hash''), tr)
      | Some (Stats l) \<Rightarrow> (Inl TypeError, tr)
      | Some (Str commit_hash) \<Rightarrow>
          (case get_commit_details w commit_hash tr of
             (details, tr') \<Rightarrow>
               detail_loop w rest (detailed_commits @ [commit ++ details]) tr'))"

definition chat_create :: "world \<Rightarrow> chat_request \<Rightarrow> event list \<Rightarrow>
    (service_exception + chat_response) \<times> event list" where
  "chat_create w req tr = (chat_completion_create w tr req, tr @ [ChatCompletionCreate req])"

text \<open>The arguments of the one call to the text-generation service.\<close>

definition changelog_request :: "string \<Rightarrow> chat_request" where
  "changelog_request prompt =
     \<lparr>model = ''gpt-3.5-turbo'',
      messages =
        [(''user'', ''You are a helpful assistant that generates changelogs from git commit histories''),
         (''user'', prompt)],
      temperature = (7, 10)\<rparr>"

text \<open>
  The result is what the Python function returns: \<open>Some\<close> of a \<open>str\<close>, or \<open>None\<close> when
  the function ends without a \<open>return\<close>; \<open>Inl\<close> is an exception that leaves the function.
\<close>

definition generate_changelog :: "world \<Rightarrow> int \<Rightarrow> event list \<Rightarrow>
    (py_error + string option) \<times> event list" where
  "generate_changelog w n tr =
     (case get_recent_commits w n tr of
        (commits, tr1) \<Rightarrow>
          if commits = [] then
            (Inr (Some ''No commit history found or not in a git repository''), tr1)
          else
     (case detail_loop w commits [] tr1 of
        (Inl e, tr2) \<Rightarrow> (Inl e, tr2)
      | (Inr detailed_commits, tr2) \<Rightarrow>
     (case prepare_prompt detailed_commits of
        Inl e \<Rightarrow> (Inl e, tr2)
      | Inr prompt \<Rightarrow>
     (case chat_create w (changelog_request prompt) tr2 of
        (Inl e, tr3) \<Rightarrow> (Inr (Some (''Error generating changelog: '' @ exception_text e)), tr3)
      | (Inr response, tr3) \<Rightarrow> (Inr None, tr3)))))"

section \<open>Shapes of the dictionaries\<close>

text \<open>
  A commit is well formed when its four summary keys hold strings and \<open>diff_stats\<close>,
  if present, holds a list: the shape of every dictionary the program builds.
\<close>

fun is_str :: "pyval option \<Rightarrow> bool" where
  "is_str (Some (Str s)) = True"
| "is_str _ = False"

fun not_str :: "pyval option \<Rightarrow> bool" where
  "not_str (Some (Str s)) = False"
| "not_str _ = True"

definition well_formed :: "pydict \<Rightarrow> bool" where
  "well_formed c \<longleftrightarrow>
     is_str (c ''hash'') \<and> is_str (c ''author'') \<and> is_str (c ''date'') \<and>
     is_str (c ''message'') \<and> not_str (c ''diff_stats'')"

text \<open>What the History Reader keeps of a line, and what it makes of it.\<close>

definition four_fields :: "string \<Rightarrow> bool" where
  "four_fields line \<longleftrightarrow> length (split CHR ''|'' line) = 4"

definition summary_of_line :: "string \<Rightarrow> pydict" where
  "summary_of_line line =
     (let parts = split CHR ''|'' line in
      [''hash'' \<mapsto> Str (parts ! 0), ''author'' \<mapsto> Str (parts ! 1),
       ''date'' \<mapsto> Str (parts ! 2), ''message'' \<mapsto> Str (parts ! 3)])"

text \<open>
  The arguments of the three lookups of the Detail Fetcher, and the diagnostic it prints
  when one of them fails.
\<close>

definition show_args :: "string \<Rightarrow> string \<Rightarrow> string list" where
  "show_args opt commit_hash = [''git'', ''show'', opt, commit_hash]"

definition details_error :: "string \<Rightarrow> CalledProcessError \<Rightarrow> event" where
  "details_error commit_hash e =
     Print (''Error retrieving commit details for '' @ commit_hash @ '': '' @ stderr e)"

section \<open>The pattern read field by field\<close>








text \<open>The line that the Prompt Builder writes for one file-change entry.\<close>

definition file_line :: "file_change \<Rightarrow> string" where
  "file_line stat =
     ''File: '' @ file_path stat @ '' (+'' @ additions stat @ '' / -'' @ deletions stat @
     '')\<newline>''"

section \<open>An example repository\<close>

text \<open>
  A world for the examples: a history of two commits, the details of the first one
  available and the numstat lookup of the second one failing; the service answers every
  request with \<open>answer\<close>.
\<close>

definition example_log :: string where
  "example_log =
     ''aaaa1111|Alice|2024-01-01|Add login\<newline>bbbb2222|Bob|2024-01-02|Fix crash\<newline>''"

definition tab :: string where
  "tab = [CHR 0x09]"

definition example_numstat :: string where
  "example_numstat =
     ''Add login\<newline>\<newline>3'' @ tab @ ''1'' @ tab @ ''src/login page.py\<newline>-'' @ tab @ ''-'' @ tab @
     ''logo.png\<newline>''"

fun example_git :: "string list \<Rightarrow> CalledProcessError + CompletedProcess" where
  "example_git [git, sub, opt, h] =
     (if sub = ''log'' then Inr (CompletedProcess example_log)
      else if h = ''bbbb2222'' \<and> opt = ''--numstat'' then
        Inl (CalledProcessError ''fatal: bad object'')
      else if opt = ''--numstat'' then Inr (CompletedProcess example_numstat)
      else Inr (CompletedProcess ''Add login\<newline>''))"
| "example_git args = Inl (CalledProcessError ''usage: git'')"

definition example_world :: "(service_exception + chat_response) \<Rightarrow> world" where
  "example_world answer =
     \<lparr>subprocess_run = (\<lambda>tr. example_git), chat_completion_create = (\<lambda>tr req. answer)\<rparr>"

text \<open>
  A world where every invocation that carries the option \<open>opt\<close> fails and every other
  one prints \<open>out\<close>.
\<close>

definition show_fails :: "string \<Rightarrow> world" where
  "show_fails opt =
     \<lparr>subprocess_run = (\<lambda>tr args.
        if opt \<in> set args then Inl (CalledProcessError ''fatal: bad object'')
        else Inr (CompletedProcess ''out'')),
      chat_completion_create = (\<lambda>tr req. Inr (ChatResponse ''unused''))\<rparr>"

text \<open>A history of two commits, the subject of the second holding the delimiter.\<close>

definition piped_log :: string where
  "piped_log =
     ''aaaa1111|Alice|2024-01-01|Add login\<newline>cccc3333|Cy|2024-01-03|Fix a|b parsing\<newline>''"

definition piped_subject :: world where
  "piped_subject =
     \<lparr>subprocess_run = (\<lambda>tr args. Inr (CompletedProcess piped_log)),
      chat_completion_create = (\<lambda>tr req. Inr (ChatResponse ''unused''))\<rparr>"

text \<open>A world outside any repository: every invocation of the tool fails.\<close>

definition no_repository :: world where
  "no_repository =
     \<lparr>subprocess_run = (\<lambda>tr args. Inl (CalledProcessError ''fatal: not a git repository'')),
      chat_completion_create = (\<lambda>tr req. Inr (ChatResponse ''unused''))\<rparr>"

text \<open>A world where the tool succeeds and prints a blank line, as a log of no entries.\<close>

definition blank_log :: world where
  "blank_log =
     \<lparr>subprocess_run = (\<lambda>tr args. Inr (CompletedProcess ''\<newline>'')),
      chat_completion_create = (\<lambda>tr req. Inr (ChatResponse ''unused''))\<rparr>"

section \<open>Properties\<close>

subsection \<open>The dictionaries the program builds are well formed\<close>

lemma is_str_iff: "is_str v \<longleftrightarrow> (\<exists>s. v = Some (Str s))"
  by (cases v rule: is_str.cases) auto

lemma not_str_iff: "not_str v \<longleftrightarrow> v = None \<or> (\<exists>l. v = Some (Stats l))"
  by (cases v rule: not_str.cases) auto

lemma add_commit_well_formed:
  assumes "well_formed c"
  shows "\<exists>t. add_commit c p = Inr t"
  using assms
  by (auto simp: well_formed_def is_str_iff not_str_iff add_commit_def Let_def split: option.splits)

lemma commit_loop_well_formed:
  "\<forall>c\<in>set cs. well_formed c \<Longrightarrow> \<exists>t. commit_loop cs p = Inr t"
proof (induction cs arbitrary: p)
  case Nil
  then show ?case by simp
next
  case (Cons c cs)
  then obtain t where "add_commit c p = Inr t"
    using add_commit_well_formed [of c p] by auto
  with Cons show ?case by simp
qed

lemma prepare_prompt_well_formed:
  "\<forall>c\<in>set cs. well_formed c \<Longrightarrow> \<exists>t. prepare_prompt cs = Inr t"
  using commit_loop_well_formed [of cs preamble] by (auto simp: prepare_prompt_def)

lemma split_Nil: "split sep [] = [ [] ]"
  by (simp add: split_def)

lemma log_lines_Cons:
  "log_lines (l # ls) acc =
     (if four_fields l then log_lines ls (acc @ [summary_of_line l]) else log_lines ls acc)"
  by (simp add: four_fields_def summary_of_line_def Let_def split_Nil)

lemma log_lines_eq:
  "log_lines ls acc = acc @ map summary_of_line (filter four_fields ls)"
  by (induction ls arbitrary: acc) (simp_all add: log_lines_Cons del: log_lines.simps(2))

lemma summary_well_formed: "well_formed (summary_of_line l)"
  by (simp add: well_formed_def summary_of_line_def Let_def)

lemma log_lines_well_formed:
  "\<forall>c\<in>set (log_lines ls []). well_formed c"
  by (auto simp: log_lines_eq summary_well_formed)

lemma get_recent_commits_well_formed:
  "\<forall>c\<in>set (fst (get_recent_commits w n tr)). well_formed c"
  using log_lines_well_formed
  by (auto simp: get_recent_commits_def run_def split: sum.splits)

lemma get_commit_details_cases:
  "fst (get_commit_details w h tr) = Map.empty \<or>
   (\<exists>fm ch ds. fst (get_commit_details w h tr) =
      [''hash'' \<mapsto> Str h, ''full_message'' \<mapsto> Str fm, ''changes'' \<mapsto> Str ch,
       ''diff_stats'' \<mapsto> Stats ds])"
  by (auto simp: get_commit_details_def details_failed_def run_def split: sum.splits prod.splits)

lemma merge_well_formed:
  assumes "well_formed c" "c ''hash'' = Some (Str h)"
  shows "well_formed (c ++ fst (get_commit_details w h tr))"
  using get_commit_details_cases [of w h tr] assms
  by (auto simp: well_formed_def map_add_def)

lemma detail_loop_well_formed:
  assumes "\<forall>c\<in>set cs. well_formed c" "\<forall>c\<in>set acc. well_formed c"
  shows "\<exists>ds. fst (detail_loop w cs acc tr) = Inr ds \<and> (\<forall>c\<in>set ds. well_formed c)"
  using assms
proof (induction cs arbitrary: acc tr)
  case Nil
  then show ?case by simp
next
  case (Cons c cs)
  then obtain h where h: "c ''hash'' = Some (Str h)"
    by (auto simp: well_formed_def is_str_iff)
  obtain d tr' where d: "get_commit_details w h tr = (d, tr')"
    by (cases "get_commit_details w h tr")
  have "well_formed (c ++ d)"
    using merge_well_formed [of c h w tr] Cons.prems h d by simp
  with Cons.prems have "\<forall>x\<in>set (acc @ [c ++ d]). well_formed x" by simp
  with Cons.IH [of "acc @ [c ++ d]" tr'] Cons.prems h d show ?case by simp
qed

subsection \<open>The two ways through \<open>generate_changelog\<close>\<close>

lemma generate_changelog_history:
  assumes "fst (get_recent_commits w n tr) \<noteq> []"
  shows "\<exists>prompt tr2.
    generate_changelog w n tr =
      ((case chat_completion_create w tr2 (changelog_request prompt) of
          Inl e \<Rightarrow> Inr (Some (''Error generating changelog: '' @ exception_text e))
        | Inr response \<Rightarrow> Inr None),
       tr2 @ [ChatCompletionCreate (changelog_request prompt)])"
proof -
  obtain commits tr1 where c: "get_recent_commits w n tr = (commits, tr1)"
    by (cases "get_recent_commits w n tr")
  have wf: "\<forall>c\<in>set commits. well_formed c"
    using get_recent_commits_well_formed [of w n tr] c by simp
  obtain r tr2 where d: "detail_loop w commits [] tr1 = (r, tr2)"
    by (cases "detail_loop w commits [] tr1")
  obtain ds where ds: "r = Inr ds" "\<forall>c\<in>set ds. well_formed c"
    using detail_loop_well_formed [of commits "[]" w tr1] wf d by auto
  obtain prompt where p: "prepare_prompt ds = Inr prompt"
    using prepare_prompt_well_formed [OF ds(2)] by auto
  have "generate_changelog w n tr =
      ((case chat_completion_create w tr2 (changelog_request prompt) of
          Inl e \<Rightarrow> Inr (Some (''Error generating changelog: '' @ exception_text e))
        | Inr response \<Rightarrow> Inr None),
       tr2 @ [ChatCompletionCreate (changelog_request prompt)])"
    using assms c d ds(1) p
    by (simp add: generate_changelog_def chat_create_def split: sum.splits)
  then show ?thesis by blast
qed

lemma generate_changelog_no_history:
  assumes "fst (get_recent_commits w n tr) = []"
  shows "generate_changelog w n tr =
    (Inr (Some ''No commit history found or not in a git repository''),
     snd (get_recent_commits w n tr))"
  using assms by (cases "get_recent_commits w n tr") (simp add: generate_changelog_def)

lemma get_recent_commits_trace:
  "snd (get_recent_commits w n tr) =
     tr @ [SubprocessRun [''git'', ''log'', ''-n'' @ str_int n, format_str]] \<or>
   (\<exists>s. snd (get_recent_commits w n tr) =
     tr @ [SubprocessRun [''git'', ''log'', ''-n'' @ str_int n, format_str], Print s])"
  by (auto simp: get_recent_commits_def run_def print_def split: sum.splits)

subsection \<open>Changelog Generator\<close>

text \<open>
  Claim C3. No exception leaves \<open>generate_changelog\<close>; and when the run ends with the
  request to the text-generation service and the service answers that request by
  raising an exception \<open>e\<close>, the function returns the string
  \<open>Error generating changelog: \<close> followed by the text of \<open>e\<close>.
\<close>

theorem service_failure_wrapped:
  "(\<forall>e. fst (generate_changelog w n tr) \<noteq> Inl e) \<and>
   (snd (generate_changelog w n tr) = tr' @ [ChatCompletionCreate req] \<longrightarrow>
    chat_completion_create w tr' req = Inl e \<longrightarrow>
    fst (generate_changelog w n tr) =
      Inr (Some (''Error generating changelog: '' @ exception_text e)))"
proof (cases "fst (get_recent_commits w n tr) = []")
  case True
  then show ?thesis
    using generate_changelog_no_history [OF True] get_recent_commits_trace [of w n tr]
    by auto
next
  case False
  then obtain prompt tr2 where g:
    "generate_changelog w n tr =
      ((case chat_completion_create w tr2 (changelog_request prompt) of
          Inl e \<Rightarrow> Inr (Some (''Error generating changelog: '' @ exception_text e))
        | Inr response \<Rightarrow> Inr None),
       tr2 @ [ChatCompletionCreate (changelog_request prompt)])"
    using generate_changelog_history [OF False] by blast
  show ?thesis
  proof (cases "chat_completion_create w tr2 (changelog_request prompt)")
    case (Inl x)
    with g show ?thesis by auto
  next
    case (Inr r)
    with g show ?thesis by auto
  qed
qed

theorem service_failure_wrapped_witness:
  "snd (generate_changelog (example_world (Inl (ServiceException ''timed out''))) 2 []) =
     butlast (snd (generate_changelog (example_world (Inl (ServiceException ''timed out''))) 2 [])) @
     [ChatCompletionCreate
        (request (last (snd (generate_changelog
           (example_world (Inl (ServiceException ''timed out''))) 2 []))))] \<and>
   fst (generate_changelog (example_world (Inl (ServiceException ''timed out''))) 2 []) =
     Inr (Some ''Error generating changelog: timed out'')"
proof -
  let ?w = "example_world (Inl (ServiceException ''timed out''))"
  let ?g = "generate_changelog ?w 2 []"
  have t: "snd ?g = butlast (snd ?g) @ [ChatCompletionCreate (request (last (snd ?g)))]"
    by code_simp
  have a: "chat_completion_create ?w (butlast (snd ?g)) (request (last (snd ?g))) =
      Inl (ServiceException ''timed out'')"
    by (simp add: example_world_def)
  show ?thesis
    using t a service_failure_wrapped [of ?w 2 "[]" "butlast (snd ?g)"
        "request (last (snd ?g))" "ServiceException ''timed out''"]
    by simp
qed

lemma generate_changelog_service_success:
  assumes "snd (generate_changelog w n tr) = tr' @ [ChatCompletionCreate req]"
    and "chat_completion_create w tr' req = Inr response"
  shows "fst (generate_changelog w n tr) = Inr None"
proof (cases "fst (get_recent_commits w n tr) = []")
  case True
  then show ?thesis
    using generate_changelog_no_history [OF True] get_recent_commits_trace [of w n tr] assms(1)
    by auto
next
  case False
  then obtain prompt tr2 where g:
    "generate_changelog w n tr =
      ((case chat_completion_create w tr2 (changelog_request prompt) of
          Inl e \<Rightarrow> Inr (Some (''Error generating changelog: '' @ exception_text e))
        | Inr response \<Rightarrow> Inr None),
       tr2 @ [ChatCompletionCreate (changelog_request prompt)])"
    using generate_changelog_history [OF False] by blast
  with assms show ?thesis by auto
qed

text \<open>
  Claim C1, on the example repository with a service that answers \<open># Changelog\<close>: the
  history is not empty, the last event of the run is the request to the service, the
  service answers it with the generated text, and \<open>generate_changelog\<close> ends without a
  \<open>return\<close>, so its caller gets \<open>None\<close> and not the generated text. By the lemma above
  this is so in every run whose request succeeds.
\<close>

theorem success_path_returns_None:
  "is_ChatCompletionCreate
     (last (snd (generate_changelog (example_world (Inr (ChatResponse ''# Changelog''))) 2 []))) \<and>
   chat_completion_create (example_world (Inr (ChatResponse ''# Changelog'')))
     (butlast (snd (generate_changelog (example_world (Inr (ChatResponse ''# Changelog''))) 2 [])))
     (request (last (snd (generate_changelog
        (example_world (Inr (ChatResponse ''# Changelog''))) 2 [])))) =
     Inr (ChatResponse ''# Changelog'') \<and>
   fst (generate_changelog (example_world (Inr (ChatResponse ''# Changelog''))) 2 []) = Inr None \<and>
   fst (generate_changelog (example_world (Inr (ChatResponse ''# Changelog''))) 2 []) \<noteq>
     Inr (Some ''# Changelog'')"
proof -
  let ?w = "example_world (Inr (ChatResponse ''# Changelog''))"
  have "is_ChatCompletionCreate (last (snd (generate_changelog ?w 2 [])))"
    by code_simp
  moreover have "chat_completion_create ?w tr req = Inr (ChatResponse ''# Changelog'')" for tr req
    by (simp add: example_world_def)
  moreover have "fst (generate_changelog ?w 2 []) = Inr None"
    by code_simp
  ultimately show ?thesis by simp
qed

text \<open>
  Claim C4. A failed log invocation and a log output that is blank both make the
  History Reader return no commit; and whenever it returns no commit,
  \<open>generate_changelog\<close> returns the fixed message and the events of the run hold no
  request to the text-generation service.
\<close>

theorem no_history_short_circuit:
  "(subprocess_run w tr [''git'', ''log'', ''-n'' @ str_int n, format_str] = Inl e \<longrightarrow>
      fst (get_recent_commits w n tr) = []) \<and>
   (subprocess_run w tr [''git'', ''log'', ''-n'' @ str_int n, format_str] = Inr result \<longrightarrow>
      strip (stdout result) = [] \<longrightarrow> fst (get_recent_commits w n tr) = []) \<and>
   (fst (get_recent_commits w n tr) = [] \<longrightarrow>
      fst (generate_changelog w n tr) =
        Inr (Some ''No commit history found or not in a git repository'') \<and>
      (\<exists>new. snd (generate_changelog w n tr) = tr @ new \<and>
             (\<forall>req. ChatCompletionCreate req \<notin> set new)))"
proof (intro conjI impI)
  assume "subprocess_run w tr [''git'', ''log'', ''-n'' @ str_int n, format_str] = Inl e"
  then show "fst (get_recent_commits w n tr) = []"
    by (simp add: get_recent_commits_def run_def)
next
  assume "subprocess_run w tr [''git'', ''log'', ''-n'' @ str_int n, format_str] = Inr result"
    and "strip (stdout result) = []"
  then show "fst (get_recent_commits w n tr) = []"
    by (simp add: get_recent_commits_def run_def split_Nil)
next
  assume e: "fst (get_recent_commits w n tr) = []"
  show "fst (generate_changelog w n tr) =
        Inr (Some ''No commit history found or not in a git repository'')"
    using generate_changelog_no_history [OF e] by simp
  show "\<exists>new. snd (generate_changelog w n tr) = tr @ new \<and>
             (\<forall>req. ChatCompletionCreate req \<notin> set new)"
    using generate_changelog_no_history [OF e] get_recent_commits_trace [of w n tr]
    by auto
qed

theorem no_history_short_circuit_witness:
  "fst (get_recent_commits no_repository 5 []) = [] \<and>
   fst (generate_changelog no_repository 5 []) =
     Inr (Some ''No commit history found or not in a git repository'') \<and>
   (\<exists>new. snd (generate_changelog no_repository 5 []) = [] @ new \<and>
          (\<forall>req. ChatCompletionCreate req \<notin> set new)) \<and>
   fst (get_recent_commits blank_log 0 []) = [] \<and>
   fst (generate_changelog blank_log 0 []) =
     Inr (Some ''No commit history found or not in a git repository'') \<and>
   (\<exists>new. snd (generate_changelog blank_log 0 []) = [] @ new \<and>
          (\<forall>req. ChatCompletionCreate req \<notin> set new))"
proof -
  have f: "subprocess_run no_repository [] [''git'', ''log'', ''-n'' @ str_int 5, format_str] =
      Inl (CalledProcessError ''fatal: not a git repository'')"
    by (simp add: no_repository_def)
  have b: "subprocess_run blank_log [] [''git'', ''log'', ''-n'' @ str_int 0, format_str] =
      Inr (CompletedProcess ''\<newline>'')"
    by (simp add: blank_log_def)
  have s: "strip (stdout (CompletedProcess ''\<newline>'')) = []"
    by (simp add: strip_def isspace_def)
  show ?thesis
    using f b s
      no_history_short_circuit [of no_repository "[]" 5
        "CalledProcessError ''fatal: not a git repository''"]
      no_history_short_circuit [of blank_log "[]" 0 _ "CompletedProcess ''\<newline>''"]
    by blast
qed

subsection \<open>Detail Fetcher: all or nothing\<close>

lemma get_commit_details_first_fails:
  assumes "subprocess_run w tr (show_args ''--format=%B'' h) = Inl e"
  shows "get_commit_details w h tr =
    (Map.empty, tr @ [SubprocessRun (show_args ''--format=%B'' h), details_error h e])"
  using assms
  by (simp add: get_commit_details_def run_def show_args_def details_failed_def print_def
      details_error_def)

lemma get_commit_details_second_fails:
  assumes "subprocess_run w tr (show_args ''--format=%B'' h) = Inr message"
    and "subprocess_run w (tr @ [SubprocessRun (show_args ''--format=%B'' h)])
           (show_args ''--name-status'' h) = Inl e"
  shows "get_commit_details w h tr =
    (Map.empty, tr @ [SubprocessRun (show_args ''--format=%B'' h),
                      SubprocessRun (show_args ''--name-status'' h), details_error h e])"
  using assms
  by (simp add: get_commit_details_def run_def show_args_def details_failed_def print_def
      details_error_def)

lemma get_commit_details_third_fails:
  assumes "subprocess_run w tr (show_args ''--format=%B'' h) = Inr message"
    and "subprocess_run w (tr @ [SubprocessRun (show_args ''--format=%B'' h)])
           (show_args ''--name-status'' h) = Inr changes"
    and "subprocess_run w (tr @ [SubprocessRun (show_args ''--format=%B'' h),
                                 SubprocessRun (show_args ''--name-status'' h)])
           (show_args ''--numstat'' h) = Inl e"
  shows "get_commit_details w h tr =
    (Map.empty, tr @ [SubprocessRun (show_args ''--format=%B'' h),
                      SubprocessRun (show_args ''--name-status'' h),
                      SubprocessRun (show_args ''--numstat'' h), details_error h e])"
  using assms
  by (simp add: get_commit_details_def run_def show_args_def details_failed_def print_def
      details_error_def)

lemma detail_loop_each:
  assumes "\<forall>c\<in>set cs. well_formed c"
  shows "\<exists>ds. fst (detail_loop w cs acc tr) = Inr (acc @ ds) \<and>
    list_all2 (\<lambda>c e. \<exists>h tr'. c ''hash'' = Some (Str h) \<and>
                 e = c ++ fst (get_commit_details w h tr')) cs ds"
  using assms
proof (induction cs arbitrary: acc tr)
  case Nil
  then show ?case by simp
next
  case (Cons c cs)
  then obtain h where h: "c ''hash'' = Some (Str h)"
    by (auto simp: well_formed_def is_str_iff)
  obtain d tr' where d: "get_commit_details w h tr = (d, tr')"
    by (cases "get_commit_details w h tr")
  from Cons.prems have "\<forall>c\<in>set cs. well_formed c" by simp
  from Cons.IH [OF this, of "acc @ [c ++ d]" tr']
  obtain ds where ds: "fst (detail_loop w cs (acc @ [c ++ d]) tr') = Inr ((acc @ [c ++ d]) @ ds)"
    "list_all2 (\<lambda>c e. \<exists>h tr'. c ''hash'' = Some (Str h) \<and>
                 e = c ++ fst (get_commit_details w h tr')) cs ds"
    by blast
  have "c ++ d = c ++ fst (get_commit_details w h tr)" using d by simp
  with h have "\<exists>h tr'. c ''hash'' = Some (Str h) \<and> c ++ d = c ++ fst (get_commit_details w h tr')"
    by blast
  with ds(2) have "list_all2 (\<lambda>c e. \<exists>h tr'. c ''hash'' = Some (Str h) \<and>
                 e = c ++ fst (get_commit_details w h tr')) (c # cs) ((c ++ d) # ds)"
    by simp
  moreover have "fst (detail_loop w (c # cs) acc tr) = Inr (acc @ (c ++ d) # ds)"
    using h d ds(1) by simp
  ultimately show ?case by blast
qed

text \<open>
  Claim C2. \<open>get_commit_details\<close> returns the empty dictionary or a dictionary with all of
  \<open>hash\<close>, \<open>full_message\<close>, \<open>changes\<close> and \<open>diff_stats\<close>. When the first, second or
  third lookup fails, the result is the empty dictionary and the events of the call are
  the lookups up to the failed one followed by the diagnostic: the later lookups are not
  made. The loop over well-formed commits raises nothing and returns one entry per
  commit, in order, each the commit merged with what the Detail Fetcher returned for its
  own hash, whatever happened to the commits before it.
\<close>

theorem detail_fetch_all_or_nothing:
  "(fst (get_commit_details w h tr) = Map.empty \<or>
    (\<exists>fm ch ds. fst (get_commit_details w h tr) =
       [''hash'' \<mapsto> Str h, ''full_message'' \<mapsto> Str fm, ''changes'' \<mapsto> Str ch,
        ''diff_stats'' \<mapsto> Stats ds])) \<and>
   (subprocess_run w tr (show_args ''--format=%B'' h) = Inl e \<longrightarrow>
      get_commit_details w h tr =
        (Map.empty, tr @ [SubprocessRun (show_args ''--format=%B'' h), details_error h e])) \<and>
   (subprocess_run w tr (show_args ''--format=%B'' h) = Inr message \<longrightarrow>
    subprocess_run w (tr @ [SubprocessRun (show_args ''--format=%B'' h)])
      (show_args ''--name-status'' h) = Inl e \<longrightarrow>
      get_commit_details w h tr =
        (Map.empty, tr @ [SubprocessRun (show_args ''--format=%B'' h),
                          SubprocessRun (show_args ''--name-status'' h), details_error h e])) \<and>
   (subprocess_run w tr (show_args ''--format=%B'' h) = Inr message \<longrightarrow>
    subprocess_run w (tr @ [SubprocessRun (show_args ''--format=%B'' h)])
      (show_args ''--name-status'' h) = Inr changes \<longrightarrow>
    subprocess_run w (tr @ [SubprocessRun (show_args ''--format=%B'' h),
                            SubprocessRun (show_args ''--name-status'' h)])
      (show_args ''--numstat'' h) = Inl e \<longrightarrow>
      get_commit_details w h tr =
        (Map.empty, tr @ [SubprocessRun (show_args ''--format=%B'' h),
                          SubprocessRun (show_args ''--name-status'' h),
                          SubprocessRun (show_args ''--numstat'' h), details_error h e])) \<and>
   ((\<forall>c\<in>set cs. well_formed c) \<longrightarrow>
      (\<exists>ds. fst (detail_loop w cs [] tr) = Inr ds \<and>
        list_all2 (\<lambda>c e. \<exists>h tr'. c ''hash'' = Some (Str h) \<and>
                     e = c ++ fst (get_commit_details w h tr')) cs ds))"
  using get_commit_details_cases [of w h tr]
    get_commit_details_first_fails [of w tr h e]
    get_commit_details_second_fails [of w tr h message e]
    get_commit_details_third_fails [of w tr h message changes e]
    detail_loop_each [of cs w "[]" tr]
  by simp

theorem detail_fetch_all_or_nothing_witness:
  "get_commit_details (show_fails ''--format=%B'') ''abc'' [] =
     (Map.empty,
      [SubprocessRun (show_args ''--format=%B'' ''abc''),
       details_error ''abc'' (CalledProcessError ''fatal: bad object'')]) \<and>
   get_commit_details (show_fails ''--name-status'') ''abc'' [] =
     (Map.empty,
      [SubprocessRun (show_args ''--format=%B'' ''abc''),
       SubprocessRun (show_args ''--name-status'' ''abc''),
       details_error ''abc'' (CalledProcessError ''fatal: bad object'')]) \<and>
   get_commit_details (show_fails ''--numstat'') ''abc'' [] =
     (Map.empty,
      [SubprocessRun (show_args ''--format=%B'' ''abc''),
       SubprocessRun (show_args ''--name-status'' ''abc''),
       SubprocessRun (show_args ''--numstat'' ''abc''),
       details_error ''abc'' (CalledProcessError ''fatal: bad object'')]) \<and>
   (\<exists>ds. fst (detail_loop (show_fails ''--numstat'')
              [summary_of_line ''abc|Al|Mon|fix'', summary_of_line ''def|Bo|Tue|add''] [] []) =
            Inr ds \<and>
      list_all2 (\<lambda>c e. \<exists>h tr'. c ''hash'' = Some (Str h) \<and>
                   e = c ++ fst (get_commit_details (show_fails ''--numstat'') h tr'))
        [summary_of_line ''abc|Al|Mon|fix'', summary_of_line ''def|Bo|Tue|add''] ds)"
proof -
  let ?e = "CalledProcessError ''fatal: bad object''"
  let ?out = "CompletedProcess ''out''"
  let ?cs = "[summary_of_line ''abc|Al|Mon|fix'', summary_of_line ''def|Bo|Tue|add'']"
  have wf: "\<forall>c\<in>set ?cs. well_formed c"
    by (simp add: summary_well_formed)
  show ?thesis
    using wf
      detail_fetch_all_or_nothing [of "show_fails ''--format=%B''" "''abc''" "[]" ?e ?out ?out "[]"]
      detail_fetch_all_or_nothing [of "show_fails ''--name-status''" "''abc''" "[]" ?e ?out ?out "[]"]
      detail_fetch_all_or_nothing [of "show_fails ''--numstat''" "''abc''" "[]" ?e ?out ?out ?cs]
    by (simp add: show_fails_def show_args_def)
qed

subsection \<open>The merge of details into a summary\<close>



subsection \<open>History Reader: the lines of the log\<close>

lemma split_from_length:
  "length (split_from sep cur s) = Suc (count_list s sep)"
  by (induction s arbitrary: cur) auto

lemma split_length: "length (split sep s) = Suc (count_list s sep)"
  by (simp add: split_def split_from_length)

lemma split_from_no_sep:
  "sep \<notin> set s \<Longrightarrow> split_from sep cur s = [cur @ s]"
  by (induction s arbitrary: cur) auto

lemma split_from_append:
  "split_from sep cur (x @ sep # y) = split_from sep cur x @ split_from sep [] y"
  by (induction x arbitrary: cur) auto

lemma split_field:
  "sep \<notin> set x \<Longrightarrow> split sep (x @ sep # y) = x # split sep y"
  by (simp add: split_def split_from_append split_from_no_sep)

lemma split_no_sep: "sep \<notin> set s \<Longrightarrow> split sep s = [s]"
  by (simp add: split_def split_from_no_sep)

lemma four_fields_count: "four_fields line \<longleftrightarrow> count_list line CHR ''|'' = 3"
  by (simp add: four_fields_def split_length)

lemma split_four:
  assumes "CHR ''|'' \<notin> set h" "CHR ''|'' \<notin> set a" "CHR ''|'' \<notin> set d" "CHR ''|'' \<notin> set m"
  shows "split CHR ''|'' (h @ ''|'' @ a @ ''|'' @ d @ ''|'' @ m) = [h, a, d, m]"
  using assms by (simp add: split_field split_no_sep)

lemma summary_of_formatted:
  assumes "CHR ''|'' \<notin> set h" "CHR ''|'' \<notin> set a" "CHR ''|'' \<notin> set d" "CHR ''|'' \<notin> set m"
  shows "summary_of_line (h @ ''|'' @ a @ ''|'' @ d @ ''|'' @ m) =
    [''hash'' \<mapsto> Str h, ''author'' \<mapsto> Str a, ''date'' \<mapsto> Str d, ''message'' \<mapsto> Str m]"
  unfolding summary_of_line_def split_four [OF assms] by (simp add: Let_def)

lemma subject_with_delimiter_not_four:
  assumes "CHR ''|'' \<in> set subject"
  shows "4 < length (split CHR ''|'' (h @ ''|'' @ a @ ''|'' @ d @ ''|'' @ subject))"
  using assms count_list_0_iff [of subject "CHR ''|''"] by (simp add: split_length)

lemma get_recent_commits_success:
  assumes "subprocess_run w tr [''git'', ''log'', ''-n'' @ str_int n, format_str] = Inr result"
  shows "fst (get_recent_commits w n tr) =
    map summary_of_line (filter four_fields (split CHR 0x0A (strip (stdout result))))"
  using assms by (simp add: get_recent_commits_def run_def log_lines_eq)

lemma split_from_cur:
  "\<exists>x xs. split_from sep [] s = x # xs \<and> (\<forall>cur. split_from sep cur s = (cur @ x) # xs)"
proof (induction s)
  case Nil
  then show ?case by simp
next
  case (Cons c cs)
  then obtain x xs where x: "split_from sep [] cs = x # xs"
      "\<And>cur. split_from sep cur cs = (cur @ x) # xs"
    by blast
  show ?case
  proof (cases "c = sep")
    case True
    with x show ?thesis by simp
  next
    case False
    with x(2) [of "[c]"] x(2) show ?thesis by simp
  qed
qed

lemma four_fields_append_left: "CHR ''|'' \<notin> set u \<Longrightarrow> four_fields (u @ l) = four_fields l"
  by (simp add: four_fields_count)

lemma not_four_fields: "CHR ''|'' \<notin> set u \<Longrightarrow> \<not> four_fields u"
  by (simp add: four_fields_count)

lemma kept_cur:
  assumes "CHR ''|'' \<notin> set cur"
  shows "length (filter four_fields (split_from sep cur s)) =
    length (filter four_fields (split_from sep [] s))"
proof -
  obtain x xs where "split_from sep [] s = x # xs" "split_from sep cur s = (cur @ x) # xs"
    using split_from_cur [of sep s] by blast
  then show ?thesis
    using assms by (simp add: four_fields_append_left)
qed

lemma kept_prefix:
  assumes "CHR ''|'' \<notin> set cur" "CHR ''|'' \<notin> set pre"
  shows "length (filter four_fields (split_from sep cur (pre @ s))) =
    length (filter four_fields (split_from sep [] s))"
  using assms
proof (induction pre arbitrary: cur)
  case Nil
  then show ?case using kept_cur [of cur sep s] by simp
next
  case (Cons c pre)
  then show ?case by (simp add: not_four_fields)
qed

lemma kept_blank:
  assumes "CHR ''|'' \<notin> set post"
  shows "length (filter four_fields (split_from sep cur post)) =
    length (filter four_fields [cur])"
  using assms
proof (induction post arbitrary: cur)
  case Nil
  then show ?case by simp
next
  case (Cons c post)
  show ?case
  proof (cases "c = sep")
    case True
    with Cons.prems Cons.IH [of "[]"] show ?thesis
      by (simp add: not_four_fields)
  next
    case False
    from Cons.prems have "c \<noteq> CHR ''|''" by auto
    then have "four_fields (cur @ [c]) = four_fields cur"
      by (simp add: four_fields_count)
    with False Cons.prems Cons.IH [of "cur @ [c]"] show ?thesis
      by simp
  qed
qed

lemma kept_suffix:
  assumes "CHR ''|'' \<notin> set post"
  shows "length (filter four_fields (split_from sep cur (s @ post))) =
    length (filter four_fields (split_from sep cur s))"
proof (induction s arbitrary: cur)
  case Nil
  then show ?case using kept_blank [OF assms] by simp
next
  case (Cons c s)
  then show ?case by simp
qed


lemma space_not_delimiter: "isspace c \<Longrightarrow> c \<noteq> CHR ''|''"
  by (auto simp: isspace_def)

lemma strip_decomposition:
  "\<exists>pre post. s = pre @ strip s @ post \<and> CHR ''|'' \<notin> set pre \<and> CHR ''|'' \<notin> set post"
proof -
  let ?t = "dropWhile isspace s"
  let ?post = "rev (takeWhile isspace (rev ?t))"
  have "rev ?t = takeWhile isspace (rev ?t) @ dropWhile isspace (rev ?t)"
    by simp
  then have "?t = strip s @ ?post"
    unfolding strip_def by (metis rev_append rev_rev_ident)
  then have "s = takeWhile isspace s @ strip s @ ?post"
    by (metis takeWhile_dropWhile_id)
  moreover have "CHR ''|'' \<notin> set (takeWhile isspace s)"
    using space_not_delimiter by (auto dest: set_takeWhileD)
  moreover have "CHR ''|'' \<notin> set ?post"
    using space_not_delimiter by (auto dest: set_takeWhileD)
  ultimately show ?thesis by blast
qed

lemma kept_strip:
  "length (filter four_fields (split sep (strip s))) = length (filter four_fields (split sep s))"
proof -
  obtain pre post where d: "s = pre @ strip s @ post" "CHR ''|'' \<notin> set pre" "CHR ''|'' \<notin> set post"
    using strip_decomposition [of s] by blast
  have "length (filter four_fields (split sep (pre @ strip s @ post))) =
      length (filter four_fields (split sep (strip s @ post)))"
    unfolding split_def using d(2) by (intro kept_prefix) simp_all
  also have "\<dots> = length (filter four_fields (split sep (strip s)))"
    unfolding split_def using d(3) by (rule kept_suffix)
  finally show ?thesis using d(1) by simp
qed

text \<open>
  Claim C5. When the log invocation succeeds, the History Reader returns, in the order
  of the lines of the stripped output, one summary for each line that \<open>split('|')\<close>
  cuts into exactly four fields, and nothing for any other line; stripping the output
  changes no line's number of fields, so there are as many summaries as the output has
  lines of four fields. For a line made of four fields without the delimiter, the
  summary holds those four fields under \<open>hash\<close>, \<open>author\<close>, \<open>date\<close> and \<open>message\<close>.
\<close>

theorem history_reader_lines:
  "(subprocess_run w tr [''git'', ''log'', ''-n'' @ str_int n, format_str] = Inr result \<longrightarrow>
      fst (get_recent_commits w n tr) =
        map summary_of_line (filter four_fields (split CHR 0x0A (strip (stdout result)))) \<and>
      length (fst (get_recent_commits w n tr)) =
        length (filter four_fields (split CHR 0x0A (stdout result)))) \<and>
   (four_fields line \<longleftrightarrow> length (split CHR ''|'' line) = 4) \<and>
   (CHR ''|'' \<notin> set h \<and> CHR ''|'' \<notin> set a \<and> CHR ''|'' \<notin> set d \<and> CHR ''|'' \<notin> set m \<longrightarrow>
      four_fields (h @ ''|'' @ a @ ''|'' @ d @ ''|'' @ m) \<and>
      summary_of_line (h @ ''|'' @ a @ ''|'' @ d @ ''|'' @ m) =
        [''hash'' \<mapsto> Str h, ''author'' \<mapsto> Str a, ''date'' \<mapsto> Str d, ''message'' \<mapsto> Str m])"
  using get_recent_commits_success [of w tr n result] summary_of_formatted [of h a d m]
    split_four [of h a d m] kept_strip [of "CHR 0x0A" "stdout result"]
  by (simp add: four_fields_def)

theorem history_reader_lines_witness:
  "fst (get_recent_commits (example_world (Inr (ChatResponse ''# Changelog''))) 2 []) =
     map summary_of_line
       (filter four_fields (split CHR 0x0A (strip (stdout (CompletedProcess example_log))))) \<and>
   length (fst (get_recent_commits (example_world (Inr (ChatResponse ''# Changelog''))) 2 [])) =
     length (filter four_fields (split CHR 0x0A (stdout (CompletedProcess example_log)))) \<and>
   split CHR 0x0A (strip (stdout (CompletedProcess example_log))) =
     [''aaaa1111|Alice|2024-01-01|Add login'', ''bbbb2222|Bob|2024-01-02|Fix crash''] \<and>
   four_fields ''aaaa1111|Alice|2024-01-01|Add login'' \<and>
   summary_of_line ''aaaa1111|Alice|2024-01-01|Add login'' =
     [''hash'' \<mapsto> Str ''aaaa1111'', ''author'' \<mapsto> Str ''Alice'',
      ''date'' \<mapsto> Str ''2024-01-01'', ''message'' \<mapsto> Str ''Add login'']"
proof -
  let ?w = "example_world (Inr (ChatResponse ''# Changelog''))"
  note t = history_reader_lines [of ?w "[]" 2 "CompletedProcess example_log" "[]"
      "''aaaa1111''" "''Alice''" "''2024-01-01''" "''Add login''"]
  have r: "subprocess_run ?w [] [''git'', ''log'', ''-n'' @ str_int 2, format_str] =
      Inr (CompletedProcess example_log)"
    by (simp add: example_world_def)
  from r t have a:
    "fst (get_recent_commits ?w 2 []) =
       map summary_of_line
         (filter four_fields (split CHR 0x0A (strip (stdout (CompletedProcess example_log))))) \<and>
     length (fst (get_recent_commits ?w 2 [])) =
       length (filter four_fields (split CHR 0x0A (stdout (CompletedProcess example_log))))"
    by blast
  have l: "split CHR 0x0A (strip (stdout (CompletedProcess example_log))) =
      [''aaaa1111|Alice|2024-01-01|Add login'', ''bbbb2222|Bob|2024-01-02|Fix crash'']"
    by code_simp
  have p: "CHR ''|'' \<notin> set ''aaaa1111'' \<and> CHR ''|'' \<notin> set ''Alice'' \<and>
      CHR ''|'' \<notin> set ''2024-01-01'' \<and> CHR ''|'' \<notin> set ''Add login''"
    by simp
  from p t have "four_fields (''aaaa1111'' @ ''|'' @ ''Alice'' @ ''|'' @ ''2024-01-01'' @ ''|'' @ ''Add login'') \<and>
      summary_of_line (''aaaa1111'' @ ''|'' @ ''Alice'' @ ''|'' @ ''2024-01-01'' @ ''|'' @ ''Add login'') =
        [''hash'' \<mapsto> Str ''aaaa1111'', ''author'' \<mapsto> Str ''Alice'',
         ''date'' \<mapsto> Str ''2024-01-01'', ''message'' \<mapsto> Str ''Add login'']"
    by blast
  then have b: "four_fields ''aaaa1111|Alice|2024-01-01|Add login'' \<and>
      summary_of_line ''aaaa1111|Alice|2024-01-01|Add login'' =
        [''hash'' \<mapsto> Str ''aaaa1111'', ''author'' \<mapsto> Str ''Alice'',
         ''date'' \<mapsto> Str ''2024-01-01'', ''message'' \<mapsto> Str ''Add login'']"
    by (simp only: append.simps)
  from a l b show ?thesis by blast
qed

text \<open>
  Claim C10. When the log invocation succeeds and one of the lines of its output is a
  commit whose subject holds the delimiter, that line splits into more than four fields
  and the History Reader returns fewer summaries than the output has lines.
\<close>

theorem subject_with_delimiter_dropped:
  assumes "subprocess_run w tr [''git'', ''log'', ''-n'' @ str_int n, format_str] = Inr result"
    and "h @ ''|'' @ a @ ''|'' @ d @ ''|'' @ subject \<in> set (split CHR 0x0A (strip (stdout result)))"
    and "CHR ''|'' \<in> set subject"
  shows "4 < length (split CHR ''|'' (h @ ''|'' @ a @ ''|'' @ d @ ''|'' @ subject)) \<and>
    length (fst (get_recent_commits w n tr)) < length (split CHR 0x0A (strip (stdout result)))"
proof -
  let ?line = "h @ ''|'' @ a @ ''|'' @ d @ ''|'' @ subject"
  have n: "4 < length (split CHR ''|'' ?line)"
    using subject_with_delimiter_not_four [OF assms(3)] .
  then have "\<not> four_fields ?line" by (simp add: four_fields_def)
  with assms(2) have "length (filter four_fields (split CHR 0x0A (strip (stdout result))))
      < length (split CHR 0x0A (strip (stdout result)))"
    by (meson length_filter_less)
  with n show ?thesis
    by (simp add: get_recent_commits_success [OF assms(1)])
qed

theorem subject_with_delimiter_dropped_witness:
  "4 < length (split CHR ''|''
         (''cccc3333'' @ ''|'' @ ''Cy'' @ ''|'' @ ''2024-01-03'' @ ''|'' @ ''Fix a|b parsing'')) \<and>
   length (fst (get_recent_commits piped_subject 2 [])) <
     length (split CHR 0x0A (strip (stdout (CompletedProcess piped_log))))"
proof -
  have r: "subprocess_run piped_subject [] [''git'', ''log'', ''-n'' @ str_int 2, format_str] =
      Inr (CompletedProcess piped_log)"
    by (simp add: piped_subject_def)
  have l: "''cccc3333'' @ ''|'' @ ''Cy'' @ ''|'' @ ''2024-01-03'' @ ''|'' @ ''Fix a|b parsing''
      \<in> set (split CHR 0x0A (strip (stdout (CompletedProcess piped_log))))"
    by code_simp
  have s: "CHR ''|'' \<in> set ''Fix a|b parsing''"
    by simp
  show ?thesis
    using subject_with_delimiter_dropped [OF r l s] .
qed


subsection \<open>Detail Fetcher: the numstat pattern\<close>































lemma stat_loop_eq: "stat_loop l prompt = prompt @ concat (map file_line l)"
  by (induction l arbitrary: prompt) (simp_all add: file_line_def)









subsection \<open>Prompt Builder: the Details line\<close>

text \<open>
  Claim C6. For a commit whose four summary keys hold strings, the Prompt Builder writes
  the four summary lines, then the line \<open>Details: \<close> with the full message exactly when
  \<open>full_message\<close> is present and differs from the subject message (no such line when it
  is absent or equal), then the lines of the files and a blank line. The prompt for one
  such commit is this text between the preamble and the closing instruction.
\<close>

theorem details_line_when_different:
  assumes "commit ''hash'' = Some (Str h)" "commit ''author'' = Some (Str a)"
    and "commit ''date'' = Some (Str d)" "commit ''message'' = Some (Str m)"
    and "not_str (commit ''diff_stats'')"
  shows "add_commit commit prompt =
    Inr (prompt @ ''Commit Hash: '' @ take 8 h @ ''\<newline>'' @ ''Author: '' @ a @ ''\<newline>'' @
         ''Date: '' @ d @ ''\<newline>'' @ ''Message: '' @ m @ ''\<newline>'' @
         (case commit ''full_message'' of
            None \<Rightarrow> []
          | Some fm \<Rightarrow> if fm = Str m then [] else ''Details: '' @ py_str fm @ ''\<newline>'') @
         (case commit ''diff_stats'' of
            Some (Stats l) \<Rightarrow> concat (map file_line l)
          | _ \<Rightarrow> []) @
         ''\<newline>'') \<and>
    prepare_prompt [commit] =
    Inr (preamble @ ''Commit Hash: '' @ take 8 h @ ''\<newline>'' @ ''Author: '' @ a @ ''\<newline>'' @
         ''Date: '' @ d @ ''\<newline>'' @ ''Message: '' @ m @ ''\<newline>'' @
         (case commit ''full_message'' of
            None \<Rightarrow> []
          | Some fm \<Rightarrow> if fm = Str m then [] else ''Details: '' @ py_str fm @ ''\<newline>'') @
         (case commit ''diff_stats'' of
            Some (Stats l) \<Rightarrow> concat (map file_line l)
          | _ \<Rightarrow> []) @
         ''\<newline>'' @ closing)"
proof -
  have "add_commit commit prompt =
    Inr (prompt @ ''Commit Hash: '' @ take 8 h @ ''\<newline>'' @ ''Author: '' @ a @ ''\<newline>'' @
         ''Date: '' @ d @ ''\<newline>'' @ ''Message: '' @ m @ ''\<newline>'' @
         (case commit ''full_message'' of
            None \<Rightarrow> []
          | Some fm \<Rightarrow> if fm = Str m then [] else ''Details: '' @ py_str fm @ ''\<newline>'') @
         (case commit ''diff_stats'' of
            Some (Stats l) \<Rightarrow> concat (map file_line l)
          | _ \<Rightarrow> []) @
         ''\<newline>'')" for prompt
    using assms
    by (auto simp: add_commit_def Let_def not_str_iff stat_loop_eq split: option.splits)
  then show ?thesis
    by (simp add: prepare_prompt_def)
qed

theorem details_line_when_different_witness:
  "add_commit
     [''hash'' \<mapsto> Str ''aaaa1111'', ''author'' \<mapsto> Str ''Alice'', ''date'' \<mapsto> Str ''2024-01-01'',
      ''message'' \<mapsto> Str ''Fix bug'', ''full_message'' \<mapsto> Str ''Fix bug''] [] =
     Inr ''Commit Hash: aaaa1111\<newline>Author: Alice\<newline>Date: 2024-01-01\<newline>Message: Fix bug\<newline>\<newline>'' \<and>
   add_commit
     [''hash'' \<mapsto> Str ''aaaa1111'', ''author'' \<mapsto> Str ''Alice'', ''date'' \<mapsto> Str ''2024-01-01'',
      ''message'' \<mapsto> Str ''Fix bug'',
      ''full_message'' \<mapsto> Str ''Fix bug\<newline>\<newline>Longer explanation.''] [] =
     Inr ''Commit Hash: aaaa1111\<newline>Author: Alice\<newline>Date: 2024-01-01\<newline>Message: Fix bug\<newline>Details: Fix bug\<newline>\<newline>Longer explanation.\<newline>\<newline>''"
proof -
  let ?same = "[''hash'' \<mapsto> Str ''aaaa1111'', ''author'' \<mapsto> Str ''Alice'',
      ''date'' \<mapsto> Str ''2024-01-01'', ''message'' \<mapsto> Str ''Fix bug'',
      ''full_message'' \<mapsto> Str ''Fix bug'']"
  let ?longer = "[''hash'' \<mapsto> Str ''aaaa1111'', ''author'' \<mapsto> Str ''Alice'',
      ''date'' \<mapsto> Str ''2024-01-01'', ''message'' \<mapsto> Str ''Fix bug'',
      ''full_message'' \<mapsto> Str ''Fix bug\<newline>\<newline>Longer explanation.'']"
  have s: "?same ''hash'' = Some (Str ''aaaa1111'')" "?same ''author'' = Some (Str ''Alice'')"
      "?same ''date'' = Some (Str ''2024-01-01'')" "?same ''message'' = Some (Str ''Fix bug'')"
      "not_str (?same ''diff_stats'')"
    by simp_all
  have l: "?longer ''hash'' = Some (Str ''aaaa1111'')" "?longer ''author'' = Some (Str ''Alice'')"
      "?longer ''date'' = Some (Str ''2024-01-01'')" "?longer ''message'' = Some (Str ''Fix bug'')"
      "not_str (?longer ''diff_stats'')"
    by simp_all
  have es: "(case ?same ''full_message'' of None \<Rightarrow> []
      | Some fm \<Rightarrow> if fm = Str ''Fix bug'' then [] else ''Details: '' @ py_str fm @ ''\<newline>'') = []"
    by simp
  have el: "(case ?longer ''full_message'' of None \<Rightarrow> []
      | Some fm \<Rightarrow> if fm = Str ''Fix bug'' then [] else ''Details: '' @ py_str fm @ ''\<newline>'') =
      ''Details: Fix bug\<newline>\<newline>Longer explanation.\<newline>''"
    by simp
  have fs: "(case ?same ''diff_stats'' of Some (Stats l) \<Rightarrow> concat (map file_line l) | _ \<Rightarrow> []) = []"
    by simp
  have fl: "(case ?longer ''diff_stats'' of Some (Stats l) \<Rightarrow> concat (map file_line l) | _ \<Rightarrow> []) = []"
    by simp
  note a = details_line_when_different [OF s, of "[]", THEN conjunct1, unfolded es fs]
  note b = details_line_when_different [OF l, of "[]", THEN conjunct1, unfolded el fl]
  have "add_commit ?same [] =
      Inr ''Commit Hash: aaaa1111\<newline>Author: Alice\<newline>Date: 2024-01-01\<newline>Message: Fix bug\<newline>\<newline>''"
    by (rule trans [OF a]) simp
  moreover have "add_commit ?longer [] =
      Inr ''Commit Hash: aaaa1111\<newline>Author: Alice\<newline>Date: 2024-01-01\<newline>Message: Fix bug\<newline>Details: Fix bug\<newline>\<newline>Longer explanation.\<newline>\<newline>''"
    by (rule trans [OF b]) simp
  ultimately show ?thesis by (rule conjI)
qed

end
